theory Spec2Isabelle
  imports Main "HOL-Library.Multiset"
begin

section \<open>Rank-order reassembly of gathered per-engine data\<close>

text \<open>
  The notebook \<^verbatim>\<open>InteractiveMPI.ipynb\<close> gathers one value per engine, in engine-id
  order, and reorders the gathered list into MPI-rank order:
  \<^verbatim>\<open>
  ranks = view['rank']
  rank_indices = np.argsort(ranks)

  def mpi_order(seq):
      return [seq[x] for x in rank_indices]
  \<close>
  The specification calls the first assignment \<open>build_rank_index\<close> and the function
  \<open>reorder\<close>. The module-level variable \<^verbatim>\<open>rank_indices\<close> that \<^verbatim>\<open>mpi_order\<close> reads is
  passed to the model of \<^verbatim>\<open>mpi_order\<close> as an explicit first argument.
\<close>

subsection \<open>Python list indexing\<close>

text \<open>
  The only exception the two source lines can raise is the \<^verbatim>\<open>IndexError\<close> of \<^verbatim>\<open>seq[x]\<close>.
\<close>

datatype error = IndexError

text \<open>
  \<^verbatim>\<open>seq[x]\<close> on a Python list of length \<open>n\<close>: an index \<open>x\<close> with \<open>-n \<le> x < 0\<close> counts
  from the end, an index outside \<open>[-n, n)\<close> raises \<^verbatim>\<open>IndexError\<close>.
\<close>

definition getitem :: "'a list \<Rightarrow> int \<Rightarrow> error + 'a" where
  "getitem seq x =
     (if 0 \<le> x \<and> x < int (length seq) then Inr (seq ! nat x)
      else if x < 0 \<and> - int (length seq) \<le> x then Inr (seq ! nat (x + int (length seq)))
      else Inl IndexError)"

text \<open>
  The list comprehension \<^verbatim>\<open>[seq[x] for x in idx]\<close>: the elements are read in the order
  of \<open>idx\<close>, and the first failing read aborts the whole comprehension.
\<close>

fun comprehension :: "'a list \<Rightarrow> int list \<Rightarrow> error + 'a list" where
  "comprehension seq [] = Inr []"
| "comprehension seq (x # xs) =
     (case getitem seq x of
        Inl e \<Rightarrow> Inl e
      | Inr v \<Rightarrow> (case comprehension seq xs of
                   Inl e \<Rightarrow> Inl e
                 | Inr vs \<Rightarrow> Inr (v # vs)))"

subsection \<open>The two operations of the notebook\<close>

text \<open>
  \<^verbatim>\<open>np.argsort(a)\<close> is a call into numpy. On a one-dimensional sequence of integers
  that fit in 64 bits it returns the positions \<open>0, \<dots>, n - 1\<close> of \<open>a\<close> arranged so that
  the elements read at them ascend. It is modelled as an insertion sort of the positions
  by the element found there. The model and the library call can differ in two places:
  \<^item> equal elements: the insertion sort keeps them in their original order, while numpy's
    default sort leaves their order open. The general theorems below hold for either
    order, and the concrete inputs evaluated below have pairwise distinct elements;
  \<^item> elements outside the signed 64-bit range \<open>[-2\<^sup>6\<^sup>3, 2\<^sup>6\<^sup>3)\<close>: numpy then converts the
    list to another element type before sorting (to floating point, when a value of
    \<open>2\<^sup>6\<^sup>3\<close> or more meets a negative one), and the rounded values need not be in the
    order of the integers. The model compares the integers themselves, so it describes
    the call on lists inside that range, \<open>int64_ranks\<close> below; every rank permutation
    of a length that fits in memory is one.
  The positions are returned as integers, as numpy returns them.
\<close>

definition argsort :: "int list \<Rightarrow> int list" where
  "argsort a = map int (sort_key (\<lambda>i. a ! i) [0..<length a])"

text \<open>\<^verbatim>\<open>rank_indices = np.argsort(ranks)\<close>\<close>

definition rank_indices :: "int list \<Rightarrow> int list" where
  "rank_indices ranks = argsort ranks"

text \<open>\<^verbatim>\<open>def mpi_order(seq): return [seq[x] for x in rank_indices]\<close>\<close>

definition mpi_order :: "int list \<Rightarrow> 'a list \<Rightarrow> error + 'a list" where
  "mpi_order rank_index seq = comprehension seq rank_index"

subsection \<open>Vocabulary of the specification\<close>

text \<open>
  A rank vector of length \<open>N\<close> is well formed when its values are a permutation of
  \<open>[0, N)\<close>: sorted, it reads \<open>0, 1, \<dots>, N - 1\<close>.
\<close>

definition is_permutation :: "int list \<Rightarrow> bool" where
  "is_permutation p \<longleftrightarrow> sort p = map int [0..<length p]"

text \<open>
  A rank vector whose values numpy holds as signed 64-bit integers, the element type on
  which \<^verbatim>\<open>np.argsort\<close> orders the integers themselves.
\<close>

definition int64_ranks :: "int list \<Rightarrow> bool" where
  "int64_ranks ranks \<longleftrightarrow> (\<forall>x \<in> set ranks. - (2 ^ 63) \<le> x \<and> x < 2 ^ 63)"

text \<open>An index that \<^verbatim>\<open>seq[x]\<close> accepts, and the element it then reads.\<close>

definition valid_index :: "'a list \<Rightarrow> int \<Rightarrow> bool" where
  "valid_index seq x \<longleftrightarrow> - int (length seq) \<le> x \<and> x < int (length seq)"

definition item :: "'a list \<Rightarrow> int \<Rightarrow> 'a" where
  "item seq x = seq ! nat (if x < 0 then x + int (length seq) else x)"

section \<open>Auxiliary facts\<close>

subsection \<open>Indexing and the comprehension\<close>

lemma getitem_valid: "valid_index seq x \<Longrightarrow> getitem seq x = Inr (item seq x)"
  by (simp add: valid_index_def getitem_def item_def)

lemma getitem_invalid: "\<not> valid_index seq x \<Longrightarrow> getitem seq x = Inl IndexError"
  by (auto simp add: valid_index_def getitem_def)

lemma comprehension_valid:
  "(\<And>x. x \<in> set idx \<Longrightarrow> valid_index seq x) \<Longrightarrow> comprehension seq idx = Inr (map (item seq) idx)"
  by (induction idx) (simp_all add: getitem_valid)

lemma comprehension_invalid:
  "x \<in> set idx \<Longrightarrow> \<not> valid_index seq x \<Longrightarrow> comprehension seq idx = Inl IndexError"
proof (induction idx)
  case Nil
  then show ?case by simp
next
  case (Cons y ys)
  show ?case
  proof (cases "valid_index seq y")
    case True
    with Cons.prems have "x \<in> set ys" by auto
    with Cons have "comprehension seq ys = Inl IndexError" by simp
    with True show ?thesis by (simp add: getitem_valid)
  next
    case False
    then show ?thesis by (simp add: getitem_invalid)
  qed
qed

lemma comprehension_fails_iff:
  "comprehension seq idx = Inl IndexError \<longleftrightarrow> (\<exists>x \<in> set idx. \<not> valid_index seq x)"
proof
  assume f: "comprehension seq idx = Inl IndexError"
  show "\<exists>x \<in> set idx. \<not> valid_index seq x"
  proof (rule ccontr)
    assume "\<not> (\<exists>x \<in> set idx. \<not> valid_index seq x)"
    then have "comprehension seq idx = Inr (map (item seq) idx)"
      by (intro comprehension_valid) blast
    with f show False by simp
  qed
next
  assume "\<exists>x \<in> set idx. \<not> valid_index seq x"
  then show "comprehension seq idx = Inl IndexError"
    by (blast intro: comprehension_invalid)
qed

lemma mpi_order_valid:
  "(\<And>x. x \<in> set rank_index \<Longrightarrow> valid_index seq x) \<Longrightarrow>
   mpi_order rank_index seq = Inr (map (item seq) rank_index)"
  unfolding mpi_order_def by (rule comprehension_valid)

lemma mpi_order_fails_iff:
  "mpi_order rank_index seq = Inl IndexError \<longleftrightarrow> (\<exists>x \<in> set rank_index. \<not> valid_index seq x)"
  unfolding mpi_order_def by (rule comprehension_fails_iff)

lemma negative_index_wraps: "mpi_order [- 1] ''ab'' = Inr ''b''"
  by (simp add: mpi_order_def getitem_def)

lemma negative_index_out_of_range: "mpi_order [- 3] ''ab'' = Inl IndexError"
  by (simp add: mpi_order_def getitem_def)

subsection \<open>The positions returned by argsort\<close>

lemma length_argsort: "length (argsort a) = length a"
  by (simp add: argsort_def)

lemma set_argsort: "set (argsort a) = int ` {0..<length a}"
  by (simp add: argsort_def)

lemma distinct_argsort: "distinct (argsort a)"
  by (simp add: argsort_def distinct_map)

lemma argsort_valid: "x \<in> set (argsort a) \<Longrightarrow> valid_index a x"
  by (auto simp add: set_argsort valid_index_def)

lemma item_int: "item seq (int i) = seq ! i"
  by (simp add: item_def)

lemma map_item_argsort: "map (item a) (argsort a) = sort a"
proof -
  let ?js = "sort_key (\<lambda>i. a ! i) [0..<length a]"
  have "map (item a) (argsort a) = map (\<lambda>i. a ! i) ?js"
    by (simp add: argsort_def item_int comp_def)
  moreover have "sort a = map (\<lambda>i. a ! i) ?js"
  proof (rule properties_for_sort)
    have "mset (map (\<lambda>i. a ! i) ?js) = mset (map (\<lambda>i. a ! i) [0..<length a])"
      by simp
    then show "mset (map (\<lambda>i. a ! i) ?js) = mset a"
      by (simp only: map_nth)
    show "sorted (map (\<lambda>i. a ! i) ?js)"
      by (rule sorted_sort_key)
  qed
  ultimately show ?thesis by simp
qed

lemma sorted_map_int_upt: "sorted (map int [0..<n])"
  by (simp add: sorted_map)

lemma is_permutation_argsort: "is_permutation (argsort a)"
  unfolding is_permutation_def
proof (rule properties_for_sort)
  show "mset (map int [0..<length (argsort a)]) = mset (argsort a)"
    by (simp add: argsort_def)
  show "sorted (map int [0..<length (argsort a)])"
    by (rule sorted_map_int_upt)
qed

lemma argsort_nth_position:
  assumes "k < length a"
  shows "0 \<le> argsort a ! k" and "argsort a ! k < int (length a)"
proof -
  from assms have "argsort a ! k \<in> set (argsort a)"
    by (simp add: length_argsort)
  then show "0 \<le> argsort a ! k" and "argsort a ! k < int (length a)"
    by (auto simp add: set_argsort)
qed

lemma argsort_identity: "argsort (map int [0..<n]) = map int [0..<n]"
proof -
  let ?a = "map int [0..<n]"
  have "map (\<lambda>i. ?a ! i) [0..<length ?a] = ?a"
    by (rule map_nth)
  then have "sorted (map (\<lambda>i. ?a ! i) [0..<length ?a])"
    by (simp only: sorted_map_int_upt)
  then have "sort_key (\<lambda>i. ?a ! i) [0..<length ?a] = [0..<length ?a]"
    by (rule sort_key_id_if_sorted)
  then show ?thesis
    by (simp add: argsort_def)
qed

subsection \<open>Permutations of \<open>[0, N)\<close>\<close>

lemma is_permutation_mset: "is_permutation p \<Longrightarrow> mset p = mset (map int [0..<length p])"
  unfolding is_permutation_def by (metis mset_sort)

lemma is_permutation_set: "is_permutation p \<Longrightarrow> set p = int ` {0..<length p}"
  unfolding is_permutation_def by (metis set_sort set_map set_upt)

lemma is_permutation_distinct: "is_permutation p \<Longrightarrow> distinct p"
  unfolding is_permutation_def
  by (metis distinct_sort distinct_map distinct_upt inj_on_def of_nat_eq_iff)

lemma is_permutation_valid:
  "is_permutation p \<Longrightarrow> length p \<le> length seq \<Longrightarrow> x \<in> set p \<Longrightarrow> valid_index seq x"
  by (auto simp add: is_permutation_set valid_index_def)

lemma permutation_argsort_nth:
  assumes p: "is_permutation ranks" and k: "k < length ranks"
  shows "ranks ! nat (argsort ranks ! k) = int k"
proof -
  have "map (item ranks) (argsort ranks) ! k = sort ranks ! k"
    by (simp only: map_item_argsort)
  also have "\<dots> = int k"
    using p k by (simp add: is_permutation_def)
  finally have "item ranks (argsort ranks ! k) = int k"
    using k by (simp add: length_argsort)
  moreover have "0 \<le> argsort ranks ! k"
    using k by (rule argsort_nth_position)
  ultimately show ?thesis
    by (simp add: item_def)
qed

lemma map_item_upt: "map (item seq) (map int [0..<length seq]) = seq"
  by (simp add: item_int comp_def map_nth)

lemma mset_map_item_permutation:
  assumes "is_permutation idx" and "length idx = length a"
  shows "mset (map (item a) idx) = mset a"
proof -
  have "mset (map (item a) idx)
        = image_mset (item a) (mset (map int [0..<length idx]))"
    using is_permutation_mset [OF assms(1)] by (simp only: mset_map)
  also have "\<dots> = mset (map (item a) (map int [0..<length a]))"
    using assms(2) by (simp only: mset_map)
  also have "\<dots> = mset a"
    by (simp only: map_item_upt)
  finally show ?thesis .
qed

lemma item_inj_on_positions:
  assumes "distinct a"
  shows "inj_on (item a) (int ` {0..<length a})"
proof (rule inj_onI)
  fix x y
  assume "x \<in> int ` {0..<length a}" and "y \<in> int ` {0..<length a}"
    and e: "item a x = item a y"
  then obtain i j where x: "x = int i" and i: "i < length a"
    and y: "y = int j" and j: "j < length a"
    by auto
  from e have "a ! i = a ! j"
    by (simp add: x y item_int)
  with assms i j have "i = j"
    by (simp add: nth_eq_iff_index_eq)
  then show "x = y"
    by (simp add: x y)
qed

text \<open>
  Where the elements of \<open>a\<close> are pairwise distinct, the positions that sort them are
  unique: every sorting algorithm returns what \<open>argsort\<close> returns, so the choice of
  insertion sort is immaterial on such inputs, rank permutations among them.
\<close>

lemma argsort_unique:
  assumes d: "distinct a"
    and p: "is_permutation idx" and l: "length idx = length a"
    and s: "sorted (map (item a) idx)"
  shows "idx = argsort a"
proof -
  have "sort a = map (item a) idx"
    using mset_map_item_permutation [OF p l] s by (rule properties_for_sort)
  then have e: "map (item a) idx = map (item a) (argsort a)"
    by (simp only: map_item_argsort)
  have "set idx \<union> set (argsort a) = int ` {0..<length a}"
    using is_permutation_set [OF p] l by (simp add: set_argsort)
  with item_inj_on_positions [OF d] have "inj_on (item a) (set idx \<union> set (argsort a))"
    by simp
  with e show ?thesis
    by (rule map_inj_on)
qed

lemma mpi_order_identity:
  "mpi_order (rank_indices (map int [0..<length vs])) vs = Inr vs"
proof -
  have "mpi_order (map int [0..<length vs]) vs = Inr (map (item vs) (map int [0..<length vs]))"
    by (rule mpi_order_valid) (auto simp add: valid_index_def)
  then show ?thesis
    by (simp only: rank_indices_def argsort_identity map_item_upt)
qed

subsection \<open>Concrete inputs\<close>

lemma is_permutation_1302: "is_permutation [1, 3, 0, 2]"
  by (simp add: is_permutation_def upt_conv_Cons)

lemma is_permutation_2031: "is_permutation [2, 0, 3, 1]"
  by (simp add: is_permutation_def upt_conv_Cons)

lemma length_abcd: "length ''abcd'' = length [2, 0, 3, 1 :: int]"
  by simp

lemma length_abc: "length ''abc'' < length [2, 0, 3, 1 :: int]"
  by simp

lemma surplus_hyp: "length [2, 0 :: nat] < length ''abcd'' \<and> (\<forall>i \<in> set [2, 0 :: nat]. i < length ''abcd'')"
  by simp

lemma failing_hyp: "mpi_order (map int [0, 5]) ''abc'' = Inl IndexError"
  by (simp add: mpi_order_def getitem_def)

lemma int64_ranks_003: "int64_ranks [0, 0, 3]"
  by (simp add: int64_ranks_def)

lemma valid_2031: "\<forall>x \<in> set [2, 0, 3, 1 :: int]. valid_index ''abcd'' x"
  by (simp add: valid_index_def)

section \<open>Properties\<close>

subsection \<open>The rank index is the argsort of the ranks\<close>

text \<open>
  C1. For a rank vector \<open>ranks\<close> of length \<open>N\<close> whose values are a permutation of
  \<open>[0, N)\<close>, \<open>build_rank_index\<close> returns a sequence of length \<open>N\<close> whose entry \<open>k\<close> is a
  position of \<open>ranks\<close>, namely the one position \<open>i\<close> with \<open>ranks[i] = k\<close>. The result is
  a permutation of the positions, and reading \<open>ranks\<close> at them in turn gives an ascending
  sequence: it is the argsort of \<open>ranks\<close>.
\<close>

theorem build_rank_index_argsort:
  assumes "is_permutation ranks"
  shows "length (rank_indices ranks) = length ranks \<and>
         (\<forall>k<length ranks.
            0 \<le> rank_indices ranks ! k \<and> rank_indices ranks ! k < int (length ranks) \<and>
            ranks ! nat (rank_indices ranks ! k) = int k \<and>
            (\<forall>i<length ranks. ranks ! i = int k \<longrightarrow> rank_indices ranks ! k = int i)) \<and>
         is_permutation (rank_indices ranks) \<and>
         sorted (map (item ranks) (rank_indices ranks))"
proof (intro conjI allI impI)
  show "length (rank_indices ranks) = length ranks"
    by (simp add: rank_indices_def length_argsort)
  show "is_permutation (rank_indices ranks)"
    by (simp add: rank_indices_def is_permutation_argsort)
  show "sorted (map (item ranks) (rank_indices ranks))"
    by (simp add: rank_indices_def map_item_argsort)
next
  fix k assume k: "k < length ranks"
  show "0 \<le> rank_indices ranks ! k" and "rank_indices ranks ! k < int (length ranks)"
    using argsort_nth_position [OF k] by (simp_all add: rank_indices_def)
  show at_k: "ranks ! nat (rank_indices ranks ! k) = int k"
    using assms k by (simp add: rank_indices_def permutation_argsort_nth)
  fix i assume i: "i < length ranks" and r: "ranks ! i = int k"
  have d: "distinct ranks"
    using assms by (rule is_permutation_distinct)
  have "nat (rank_indices ranks ! k) < length ranks"
    using argsort_nth_position [OF k] k by (simp add: rank_indices_def)
  with d i r at_k have "nat (rank_indices ranks ! k) = i"
    by (metis nth_eq_iff_index_eq)
  moreover have "0 \<le> rank_indices ranks ! k"
    using argsort_nth_position [OF k] by (simp add: rank_indices_def)
  ultimately show "rank_indices ranks ! k = int i"
    by simp
qed

theorem build_rank_index_argsort_witness:
  "is_permutation [1, 3, 0, 2] \<and>
   length (rank_indices [1, 3, 0, 2]) = length [1, 3, 0, 2 :: int] \<and>
   [1, 3, 0, 2] ! nat (rank_indices [1, 3, 0, 2] ! 2) = int 2 \<and>
   is_permutation (rank_indices [1, 3, 0, 2])"
proof -
  note t = build_rank_index_argsort [OF is_permutation_1302]
  have "(2::nat) < length [1, 3, 0, 2 :: int]"
    by simp
  with t have "[1, 3, 0, 2] ! nat (rank_indices [1, 3, 0, 2] ! 2) = int 2"
    by blast
  with t is_permutation_1302 show ?thesis
    by blast
qed

subsection \<open>Reordering reads the values at the index entries\<close>

text \<open>
  C2. When \<open>values\<close> and \<open>rank_index\<close> have the same length and every entry of
  \<open>rank_index\<close> is an index that \<open>values\<close> accepts, \<open>reorder\<close> returns a sequence of that
  length whose entry \<open>k\<close> is \<open>values[rank_index[k]]\<close>. The result is a function of the
  two sequences alone: \<^verbatim>\<open>mpi_order\<close> reads its argument and the rank index, builds a new
  list and writes nothing, which is why its model is a HOL function of these two arguments.
\<close>

theorem reorder_pointwise:
  assumes "length values = length rank_index"
    and "\<forall>x \<in> set rank_index. valid_index values x"
  shows "\<exists>result. mpi_order rank_index values = Inr result \<and>
           length result = length values \<and>
           (\<forall>k<length values. result ! k = item values (rank_index ! k))"
proof -
  have "mpi_order rank_index values = Inr (map (item values) rank_index)"
    using assms(2) by (intro mpi_order_valid) blast
  with assms(1) show ?thesis by simp
qed

theorem reorder_pointwise_witness:
  "\<exists>result. mpi_order [2, 0, 3, 1] ''abcd'' = Inr result \<and>
     length result = length ''abcd'' \<and> result ! 0 = CHR ''c''"
proof -
  obtain result where r: "mpi_order [2, 0, 3, 1] ''abcd'' = Inr result"
    and l: "length result = length ''abcd''"
    and n: "\<forall>k<length ''abcd''. result ! k = item ''abcd'' ([2, 0, 3, 1] ! k)"
    using reorder_pointwise [OF length_abcd valid_2031] by blast
  from n have "result ! 0 = item ''abcd'' ([2, 0, 3, 1] ! 0)"
    by simp
  then have "result ! 0 = CHR ''c''"
    by (simp add: item_def)
  with r l show ?thesis
    by blast
qed

subsection \<open>Round trip\<close>

text \<open>
  C3. For every permutation \<open>P\<close> of \<open>[0, N)\<close>, reordering \<open>P\<close> itself by its rank index
  gives \<open>[0, 1, \<dots>, N - 1]\<close>: the rank index is the inverse permutation of \<open>P\<close>.
\<close>

theorem round_trip:
  assumes "is_permutation P"
  shows "mpi_order (rank_indices P) P = Inr (map int [0..<length P])"
proof -
  have "mpi_order (rank_indices P) P = Inr (map (item P) (argsort P))"
    unfolding rank_indices_def by (rule mpi_order_valid) (rule argsort_valid)
  also have "map (item P) (argsort P) = sort P"
    by (rule map_item_argsort)
  also have "sort P = map int [0..<length P]"
    using assms by (simp add: is_permutation_def)
  finally show ?thesis .
qed

theorem round_trip_witness:
  "is_permutation [1, 3, 0, 2] \<and>
   mpi_order (rank_indices [1, 3, 0, 2]) [1, 3, 0, 2]
     = Inr (map int [0..<length [1, 3, 0, 2 :: int]])"
  by (rule conjI [OF is_permutation_1302 round_trip [OF is_permutation_1302]])

subsection \<open>Reordering by a permutation rearranges the values\<close>

text \<open>
  C4. When \<open>values\<close> has length \<open>N\<close> and the entries of \<open>rank_index\<close> are a permutation
  of \<open>[0, N)\<close>, \<open>reorder\<close> returns a rearrangement of \<open>values\<close>: the same elements with the
  same multiplicities.
\<close>

theorem reorder_mset:
  assumes "is_permutation rank_index" and "length values = length rank_index"
  shows "\<exists>result. mpi_order rank_index values = Inr result \<and> mset result = mset values"
proof -
  have "mpi_order rank_index values = Inr (map (item values) rank_index)"
    using assms by (intro mpi_order_valid is_permutation_valid) simp_all
  moreover have "mset (map (item values) rank_index) = mset values"
    using assms(1) assms(2) [symmetric] by (rule mset_map_item_permutation)
  ultimately show ?thesis by blast
qed

theorem reorder_mset_witness:
  "\<exists>result. mpi_order [2, 0, 3, 1] ''abcd'' = Inr result \<and> mset result = mset ''abcd''"
  by (rule reorder_mset [OF is_permutation_2031 length_abcd])

subsection \<open>Sequences of different lengths\<close>

text \<open>
  C5, as stated, asks every call with \<open>|values| \<noteq> |rank_index|\<close> to fail. The source
  compares no lengths: with four values and the rank index \<open>[0, 1, 2]\<close> it returns the
  first three values.
\<close>

theorem length_mismatch_counterexample:
  "length [10, 20, 30, 40 :: nat] \<noteq> length [0, 1, 2 :: int] \<and>
   mpi_order [0, 1, 2] [10, 20, 30, 40 :: nat] = Inr [10, 20, 30]"
  by (simp add: mpi_order_def getitem_def)

text \<open>
  C5, amended. When \<open>rank_index\<close> is a permutation of \<open>[0, |rank_index|)\<close> and \<open>values\<close>
  is shorter than \<open>rank_index\<close>, as with three values and an index of length four,
  \<open>reorder\<close> fails, and the failure is the \<^verbatim>\<open>IndexError\<close> of the read at the largest entry.
\<close>

theorem short_values_IndexError:
  assumes "is_permutation rank_index" and "length values < length rank_index"
  shows "mpi_order rank_index values = Inl IndexError"
proof -
  let ?x = "int (length rank_index - 1)"
  from assms(2) have "length rank_index - 1 \<in> {0..<length rank_index}"
    by simp
  then have "?x \<in> int ` {0..<length rank_index}"
    by (rule imageI)
  then have "?x \<in> set rank_index"
    using is_permutation_set [OF assms(1)] by simp
  moreover from assms(2) have "\<not> valid_index values ?x"
    by (auto simp add: valid_index_def)
  ultimately show ?thesis
    unfolding mpi_order_fails_iff by blast
qed

theorem short_values_IndexError_witness:
  "mpi_order [2, 0, 3, 1] ''abc'' = Inl IndexError"
  by (rule short_values_IndexError [OF is_permutation_2031 length_abc])

subsection \<open>Rank vectors that are not permutations\<close>

text \<open>
  C6, as stated, asks \<open>build_rank_index\<close> to fail on a rank vector that is not a
  permutation of \<open>[0, N)\<close>. The source sorts whatever it is given: the ranks \<open>[3, 0, 1]\<close>,
  which lack \<open>2\<close> and are pairwise distinct, give the rank index \<open>[1, 2, 0]\<close>.
\<close>

theorem no_validation_counterexample:
  "\<not> is_permutation [3, 0, 1] \<and> rank_indices [3, 0, 1] = [1, 2, 0]"
  by (simp add: is_permutation_def rank_indices_def argsort_def upt_conv_Cons)

text \<open>
  C6, amended. \<open>build_rank_index\<close> validates nothing and fails on no sequence of
  signed 64-bit ranks: for every \<open>ranks\<close> of length \<open>N\<close> whose values lie in
  \<open>[-2\<^sup>6\<^sup>3, 2\<^sup>6\<^sup>3)\<close>, duplicates and gaps included, it returns \<open>N\<close> positions, and the
  ranks read at these positions are the ranks in ascending order.
\<close>

theorem build_rank_index_unvalidated:
  assumes "int64_ranks ranks"
  shows "length (rank_indices ranks) = length ranks \<and>
         map (item ranks) (rank_indices ranks) = sort ranks"
  by (simp add: rank_indices_def length_argsort map_item_argsort)

theorem build_rank_index_unvalidated_witness:
  "int64_ranks [0, 0, 3] \<and> \<not> is_permutation [0, 0, 3] \<and>
   length (rank_indices [0, 0, 3]) = 3 \<and>
   map (item [0, 0, 3 :: int]) (rank_indices [0, 0, 3]) = [0, 0, 3]"
proof -
  have "length (rank_indices [0, 0, 3]) = length [0, 0, 3 :: int] \<and>
        map (item [0, 0, 3 :: int]) (rank_indices [0, 0, 3]) = sort [0, 0, 3]"
    by (rule build_rank_index_unvalidated [OF int64_ranks_003])
  moreover have "\<not> is_permutation [0, 0, 3]"
    by (simp add: is_permutation_def upt_conv_Cons)
  ultimately show ?thesis
    using int64_ranks_003 by simp
qed

subsection \<open>Ranks already in order\<close>

text \<open>
  C7. When the ranks are \<open>[0, 1, \<dots>, N - 1]\<close>, reordering \<open>N\<close> values by their rank index
  returns the values unchanged; so it is for \<open>N = 1\<close> (ranks \<open>[0]\<close>, values \<open>[x]\<close>) and
  for \<open>N = 3\<close> (ranks \<open>[0, 1, 2]\<close>, values \<open>[a, b, c]\<close>).
\<close>

theorem identity_ranks:
  "mpi_order (rank_indices (map int [0..<length values])) values = Inr values \<and>
   mpi_order (rank_indices [0]) [x] = Inr [x] \<and>
   mpi_order (rank_indices [0, 1, 2]) [a, b, c] = Inr [a, b, c]"
proof (intro conjI)
  show "mpi_order (rank_indices (map int [0..<length values])) values = Inr values"
    by (rule mpi_order_identity)
  show "mpi_order (rank_indices [0]) [x] = Inr [x]"
    using mpi_order_identity [of "[x]"] by simp
  show "mpi_order (rank_indices [0, 1, 2]) [a, b, c] = Inr [a, b, c]"
    using mpi_order_identity [of "[a, b, c]"] by (simp add: upt_conv_Cons)
qed

subsection \<open>Scenario A\<close>

text \<open>
  C8. The ranks \<open>[1, 3, 0, 2]\<close> give the rank index \<open>[2, 0, 3, 1]\<close>, and reordering
  \<open>["w0", "w1", "w2", "w3"]\<close> by that index gives \<open>["w2", "w0", "w3", "w1"]\<close>.
\<close>

theorem scenario_A:
  "rank_indices [1, 3, 0, 2] = [2, 0, 3, 1] \<and>
   mpi_order [2, 0, 3, 1] [''w0'', ''w1'', ''w2'', ''w3'']
     = Inr [''w2'', ''w0'', ''w3'', ''w1'']"
  by (simp add: rank_indices_def argsort_def mpi_order_def getitem_def upt_conv_Cons)

subsection \<open>More values than index entries\<close>

text \<open>
  C9. The entries of a rank index are positions, \<open>0\<close> or greater. When there are more
  values than index entries and every entry is a position of \<open>values\<close>, \<open>reorder\<close> raises
  nothing and returns one value per index entry, so the values no entry points at are
  dropped. A failure occurs exactly when some entry is \<open>|values|\<close> or greater.
  (For an index of arbitrary integers, \<open>mpi_order_fails_iff\<close> states when the read fails:
  Python accepts the negative indices down to \<open>-|values|\<close>.)
\<close>

theorem surplus_values_dropped:
  fixes positions :: "nat list"
  shows "(length positions < length values \<and> (\<forall>i \<in> set positions. i < length values) \<longrightarrow>
           mpi_order (map int positions) values = Inr (map (\<lambda>i. values ! i) positions) \<and>
           length (map (\<lambda>i. values ! i) positions) = length positions) \<and>
         (mpi_order (map int positions) values = Inl IndexError \<longleftrightarrow>
           (\<exists>i \<in> set positions. length values \<le> i))"
proof (intro conjI impI)
  assume a: "length positions < length values \<and> (\<forall>i \<in> set positions. i < length values)"
  have "mpi_order (map int positions) values = Inr (map (item values) (map int positions))"
    using a by (intro mpi_order_valid) (auto simp add: valid_index_def)
  then show "mpi_order (map int positions) values = Inr (map (\<lambda>i. values ! i) positions)"
    by (simp add: item_int comp_def)
  show "length (map (\<lambda>i. values ! i) positions) = length positions"
    by simp
next
  have "(\<exists>x \<in> set (map int positions). \<not> valid_index values x)
        \<longleftrightarrow> (\<exists>i \<in> set positions. length values \<le> i)"
    by (fastforce simp add: valid_index_def not_less)
  then show "mpi_order (map int positions) values = Inl IndexError
        \<longleftrightarrow> (\<exists>i \<in> set positions. length values \<le> i)"
    by (simp only: mpi_order_fails_iff)
qed

theorem surplus_values_dropped_witness:
  "mpi_order (map int [2, 0]) ''abcd'' = Inr ''ca'' \<and>
   mpi_order (map int [0, 5]) ''abc'' = Inl IndexError \<and>
   (\<exists>i \<in> set [0, 5 :: nat]. length ''abc'' \<le> i)"
proof -
  have "mpi_order (map int [2, 0]) ''abcd'' = Inr (map (\<lambda>i. ''abcd'' ! i) [2, 0])"
    using surplus_values_dropped [of "[2, 0]" "''abcd''"] surplus_hyp by blast
  then have "mpi_order (map int [2, 0]) ''abcd'' = Inr ''ca''"
    by simp
  moreover have "\<exists>i \<in> set [0, 5 :: nat]. length ''abc'' \<le> i"
    using surplus_values_dropped [of "[0, 5]" "''abc''"] failing_hyp by blast
  ultimately show ?thesis
    using failing_hyp by blast
qed

subsection \<open>The rank index of an arbitrary integer sequence\<close>

text \<open>
  C10. \<open>build_rank_index\<close> returns on every integer sequence \<open>ranks\<close> of length \<open>N\<close>,
  a permutation or not, and what it returns is always a permutation of the positions
  \<open>[0, N)\<close>: \<open>N\<close> pairwise distinct entries that are exactly the positions of \<open>ranks\<close>.
\<close>

theorem build_rank_index_total:
  "length (rank_indices ranks) = length ranks \<and>
   distinct (rank_indices ranks) \<and>
   set (rank_indices ranks) = int ` {0..<length ranks} \<and>
   is_permutation (rank_indices ranks)"
  by (simp add: rank_indices_def length_argsort distinct_argsort set_argsort
      is_permutation_argsort)

end
